theory Spec2Isabelle
  imports Main "HOL-Library.Char_ord" "HOL-Library.List_Lexorder"
begin

section \<open>Python strings\<close>

text \<open>
  A Python \<open>str\<close> is a \<^typ>\<open>string\<close>, one \<^typ>\<open>char\<close> per code point
  below U+0100; \<open>isspace\<close> and \<open>lower_char\<close> are CPython's \<open>str.isspace\<close> and
  \<open>str.lower\<close> on that range. The symbols beyond U+00FF of the bot's fixed reply
  texts are spelled by their UTF-8 bytes; no function of the program inspects them.
\<close>

definition isspace :: "char \<Rightarrow> bool" where
  "isspace c =
     (let n = (of_char c :: nat)
      in (9 \<le> n \<and> n \<le> 13) \<or> (28 \<le> n \<and> n \<le> 32) \<or> n = 133 \<or> n = 160)"

definition lstrip :: "string \<Rightarrow> string" where
  "lstrip s = dropWhile isspace s"

definition rstrip :: "string \<Rightarrow> string" where
  "rstrip s = rev (dropWhile isspace (rev s))"

definition strip :: "string \<Rightarrow> string" where
  "strip s = rstrip (lstrip s)"

definition lower_char :: "char \<Rightarrow> char" where
  "lower_char c =
     (let n = (of_char c :: nat)
      in if (65 \<le> n \<and> n \<le> 90) \<or> (192 \<le> n \<and> n \<le> 222 \<and> n \<noteq> 215)
         then char_of (n + 32) else c)"

definition lower :: "string \<Rightarrow> string" where
  "lower s = map lower_char s"

definition upper_char :: "char \<Rightarrow> char" where
  "upper_char c =
     (let n = (of_char c :: nat)
      in if (97 \<le> n \<and> n \<le> 122) \<or> (224 \<le> n \<and> n \<le> 254 \<and> n \<noteq> 247)
         then char_of (n - 32) else c)"

text \<open>
  \<open>str.capitalize\<close>: the first character in title case, the rest in lower case. The
  title case of U+00DF is the two letters \<open>Ss\<close>; those of U+00B5 and U+00FF lie beyond
  U+00FF, and the two characters are left as they are here. The program capitalises its
  category names only, which are ASCII.
\<close>

definition capitalize :: "string \<Rightarrow> string" where
  "capitalize s =
     (case s of
        [] \<Rightarrow> []
      | c # cs \<Rightarrow> (if c = CHR 0xDF then ''Ss'' else [upper_char c]) @ lower cs)"

text \<open>\<open>sep.join(xs)\<close>.\<close>

fun join :: "string \<Rightarrow> string list \<Rightarrow> string" where
  "join sep [] = []"
| "join sep [x] = x"
| "join sep (x # y # ys) = x @ sep @ join sep (y # ys)"

text \<open>\<open>s.split(sep, maxsplit)\<close> for a separator of one character.\<close>

fun split_max :: "char \<Rightarrow> nat \<Rightarrow> string \<Rightarrow> string list" where
  "split_max sep 0 s = [s]"
| "split_max sep (Suc k) s =
     (if sep \<in> set s
      then takeWhile (\<lambda>c. c \<noteq> sep) s # split_max sep k (tl (dropWhile (\<lambda>c. c \<noteq> sep) s))
      else [s])"

text \<open>Exceptions carry the text that \<open>str(e)\<close> gives.\<close>

datatype exn = ValueError string | AttributeError string | Raised string

fun exn_str :: "exn \<Rightarrow> string" where
  "exn_str (ValueError m) = m"
| "exn_str (AttributeError m) = m"
| "exn_str (Raised m) = m"

text \<open>Tuple unpacking \<open>a, b = xs\<close> and \<open>a, b, c = xs\<close>: a ValueError on any other length.\<close>

fun unpack2 :: "string list \<Rightarrow> exn + (string \<times> string)" where
  "unpack2 [a, b] = Inr (a, b)"
| "unpack2 [] = Inl (ValueError ''not enough values to unpack (expected 2, got 0)'')"
| "unpack2 [a] = Inl (ValueError ''not enough values to unpack (expected 2, got 1)'')"
| "unpack2 (a # b # c # xs) = Inl (ValueError ''too many values to unpack (expected 2)'')"

fun unpack3 :: "string list \<Rightarrow> exn + (string \<times> string \<times> string)" where
  "unpack3 [a, b, c] = Inr (a, b, c)"
| "unpack3 [] = Inl (ValueError ''not enough values to unpack (expected 3, got 0)'')"
| "unpack3 [a] = Inl (ValueError ''not enough values to unpack (expected 3, got 1)'')"
| "unpack3 [a, b] = Inl (ValueError ''not enough values to unpack (expected 3, got 2)'')"
| "unpack3 (a # b # c # d # xs) = Inl (ValueError ''too many values to unpack (expected 3)'')"

text \<open>Truthiness of an optional string (\<open>None\<close> and \<open>""\<close> are false) and Python's \<open>or\<close>.\<close>

definition truthy :: "string option \<Rightarrow> bool" where
  "truthy v = (case v of None \<Rightarrow> False | Some s \<Rightarrow> s \<noteq> [])"

definition py_or :: "string option \<Rightarrow> string option \<Rightarrow> string option" where
  "py_or a b = (if truthy a then a else b)"


section \<open>main.py: aliases and prefix detection\<close>


text \<open>The dict \<open>ALIASES\<close>, in insertion order.\<close>

definition ALIASES :: "(string \<times> string list) list" where
  "ALIASES =
     [(''character'', [''character'', ''karakter'']),
      (''factions'', [''faction'', ''factions'', ''tim'', ''team'', ''faksi'']),
      (''items'', [''item'', ''items'', ''artefak'', ''artifact'', ''barang'']),
      (''maps'', [''maps'', ''map'', ''peta'', ''lokasi'', ''area'']),
      (''npc'', [''npc'']),
      (''timeline'', [''timeline'', ''linimasa'', ''alur'', ''sejarah''])]"

text \<open>The loop \<open>for cat, keys in ALIASES.items(): if prefix in keys: return cat, rest\<close>.\<close>

fun find_alias :: "string \<Rightarrow> (string \<times> string list) list \<Rightarrow> string option" where
  "find_alias prefix [] = None"
| "find_alias prefix ((cat, keys) # rest) =
     (if prefix \<in> set keys then Some cat else find_alias prefix rest)"

definition detect_category_and_query :: "string option \<Rightarrow> exn + (string option \<times> string)" where
  "detect_category_and_query text =
     (let raw = strip (case text of None \<Rightarrow> [] | Some t \<Rightarrow> t)
      in if CHR '':'' \<in> set raw
         then (case unpack2 (split_max CHR '':'' 1 raw) of
                 Inl e \<Rightarrow> Inl e
               | Inr (prefix0, rest0) \<Rightarrow>
                   (let prefix = strip (lower prefix0);
                        rest = strip rest0
                    in case find_alias prefix ALIASES of
                         Some cat \<Rightarrow> Inr (Some cat, rest)
                       | None \<Rightarrow> Inr (None, raw)))
         else Inr (None, raw))"



section \<open>main.py: source note\<close>

text \<open>
  A retrieved item is a \<open>NodeWithScore\<close>, whose \<open>node\<close> has a text and a metadata
  dict (string values); \<open>collect_sources\<close> also accepts an object without a \<open>node\<close>
  attribute, for which it takes the empty dict.
\<close>

record text_node =
  node_text :: string
  metadata :: "string \<rightharpoonup> string"

datatype item = NodeWithScore text_node | NoNodeAttr

fun item_metadata :: "item \<Rightarrow> (string \<rightharpoonup> string)" where
  "item_metadata (NodeWithScore n) = metadata n"
| "item_metadata NoNodeAttr = Map.empty"

definition fname_of :: "item \<Rightarrow> string option" where
  "fname_of n =
     (let meta = item_metadata n
      in py_or (py_or (meta ''file_name'') (meta ''filename'')) (meta ''id''))"

fun collect_files :: "item list \<Rightarrow> nat \<Rightarrow> string list \<Rightarrow> string list" where
  "collect_files [] max_files files = files"
| "collect_files (n # ns) max_files files =
     (let fname = fname_of n;
          files' = (if truthy fname \<and> the fname \<notin> set files then files @ [the fname] else files)
      in if length files' \<ge> max_files then files' else collect_files ns max_files files')"

definition collect_sources :: "item list \<Rightarrow> nat \<Rightarrow> string" where
  "collect_sources nodes max_files =
     (let files = collect_files nodes max_files []
      in if files \<noteq> [] then join '', '' files else ''dataset'')"


section \<open>main.py: the question handler\<close>

text \<open>
  The handlers talk to three external components, each of which may raise: the
  per-category retrievers (the dict \<open>retrievers\<close>, in insertion order), the optional
  reranker and the language model. Calls to the chat transport are taken to succeed.
  What a handler does is the list of its calls, in order.
\<close>

record completion =
  resp_text :: "string option"
  resp_str :: string

record env =
  retrievers :: "(string \<times> (string \<Rightarrow> exn + text_node list)) list"
  reranker :: "(text_node list \<Rightarrow> string \<Rightarrow> exn + text_node list) option"
  acomplete :: "string \<Rightarrow> exn + completion"

record session =
  selected_cat :: "string option"

type_synonym keyboard = "(string \<times> string) list list"

datatype event =
    ReplyText string
  | ReplyMarkup string keyboard
  | EditMessage string
  | EditMarkup string keyboard
  | Answer
  | Retrieve string string
  | Rerank string
  | Complete string

definition NL :: string where
  "NL = [CHR 0x0A]"

definition LOADING_MSG :: string where
  "LOADING_MSG = [CHR 0xE2, CHR 0x8F, CHR 0xB3] @ '' Lagi nyari jawabannya...''"

definition NOT_FOUND_MSG :: string where
  "NOT_FOUND_MSG =
     [CHR 0xF0, CHR 0x9F, CHR 0x99, CHR 0x87, CHR 0xE2, CHR 0x80, CHR 0x8D,
      CHR 0xE2, CHR 0x99, CHR 0x82, CHR 0xEF, CHR 0xB8, CHR 0x8F]
     @ '' Maaf, belum ketemu di basis data. Coba spesifikkan pertanyaan atau cek index.''"

definition not_indexed_msg :: "string \<Rightarrow> string" where
  "not_indexed_msg cat =
     ''Kategori '' @ [CHR 0x27] @ cat @ [CHR 0x27]
     @ '' belum ter-index. Jalankan build_index.py dulu.''"

definition error_msg :: "exn \<Rightarrow> string" where
  "error_msg e = [CHR 0xE2, CHR 0x9D, CHR 0x8C] @ '' Error saat memproses: '' @ exn_str e"

definition CONTEXT_SEP :: string where
  "CONTEXT_SEP = NL @ NL @ ''---'' @ NL @ NL"

definition prompt_of :: "string \<Rightarrow> string \<Rightarrow> string" where
  "prompt_of context_text q =
     ''Jawablah pertanyaan hanya dengan memanfaatkan KONTEN berikut. ''
     @ ''Jika jawaban persis tidak ada, gunakan informasi paling relevan dari KONTEN untuk memberi penjelasan ringkas. ''
     @ ''Jika sama sekali tidak relevan, tulis: 'Informasi tidak ditemukan di basis data.'' @ [CHR 0x27] @ NL @ NL
     @ ''--- KONTEN ---'' @ NL @ context_text @ NL @ NL
     @ ''--- PERTANYAAN ---'' @ NL @ q @ NL @ NL
     @ ''--- PETUNJUK ---'' @ NL
     @ ''- Utamakan fakta dari KONTEN.'' @ NL
     @ ''- Jika tidak ada fakta langsung, boleh simpulkan singkat dari potongan yang terkait.'' @ NL
     @ ''- Jika benar-benar kosong, tulis: 'Informasi tidak ditemukan di basis data.'' @ [CHR 0x27] @ NL"

definition answer_msg :: "string \<Rightarrow> string \<Rightarrow> string \<Rightarrow> string" where
  "answer_msg answer source_note mode_note =
     [CHR 0xF0, CHR 0x9F, CHR 0xA7, CHR 0xA0] @ '' '' @ answer @ NL @ NL @ source_note @ NL @ mode_note"

definition keyboard_fb :: "string \<Rightarrow> keyboard" where
  "keyboard_fb q_raw =
     [[(''1'', ''fb|1|'' @ q_raw), (''2'', ''fb|2|'' @ q_raw), (''3'', ''fb|3|'' @ q_raw),
       (''4'', ''fb|4|'' @ q_raw), (''5'', ''fb|5|'' @ q_raw)]]"

definition keyboard_next :: keyboard where
  "keyboard_next =
     [[(''Tanya lagi '' @ [CHR 0xF0, CHR 0x9F, CHR 0x94, CHR 0x84], ''NEXT|again'')],
      [(''Selesai '' @ [CHR 0xE2, CHR 0x9C, CHR 0x85], ''NEXT|done'')]]"

text \<open>
  Step 3, retrieval (lines 179--184): the retriever of the category, or every loaded
  retriever in turn with the results concatenated. The first retriever that raises ends
  the loop.
\<close>

fun retrieve_all ::
  "(string \<times> (string \<Rightarrow> exn + text_node list)) list \<Rightarrow> string \<Rightarrow> event list \<times> (exn + text_node list)"
where
  "retrieve_all [] q = ([], Inr [])"
| "retrieve_all ((c, r) # rs) q =
     (case r q of
        Inl e \<Rightarrow> ([Retrieve c q], Inl e)
      | Inr ns \<Rightarrow>
          (case retrieve_all rs q of
             (evs, Inl e) \<Rightarrow> (Retrieve c q # evs, Inl e)
           | (evs, Inr ms) \<Rightarrow> (Retrieve c q # evs, Inr (ns @ ms))))"

definition retrieval :: "env \<Rightarrow> string option \<Rightarrow> string \<Rightarrow> event list \<times> (exn + text_node list)" where
  "retrieval env cat q =
     (if truthy cat
      then (case map_of (retrievers env) (the cat) of
              Some r \<Rightarrow> ([Retrieve (the cat) q], r q)
            | None \<Rightarrow> ([], Inl (Raised ([CHR 0x27] @ the cat @ [CHR 0x27]))))
      else retrieve_all (retrievers env) q)"

text \<open>
  Step 4, reranking (lines 186--191): only with a reranker and a non-empty list; an
  exception of the reranker is swallowed and the list stays as it was.
\<close>

definition rerank :: "env \<Rightarrow> text_node list \<Rightarrow> string \<Rightarrow> event list \<times> text_node list" where
  "rerank env retrieved_nodes q =
     (case reranker env of
        None \<Rightarrow> ([], retrieved_nodes)
      | Some rr \<Rightarrow>
          if retrieved_nodes \<noteq> []
          then (case rr retrieved_nodes q of
                  Inl e \<Rightarrow> ([Rerank q], retrieved_nodes)
                | Inr ns \<Rightarrow> ([Rerank q], ns))
          else ([], retrieved_nodes))"

definition context_text_of :: "text_node list \<Rightarrow> string" where
  "context_text_of retrieved_nodes = join CONTEXT_SEP (take 12 (map node_text retrieved_nodes))"

text \<open>
  Lines 193--243: the empty-context guard, the prompt, the one model call and the
  replies. The result is the calls made and the exception that ended them, if any.
\<close>

definition compose ::
  "env \<Rightarrow> string option \<Rightarrow> string \<Rightarrow> string \<Rightarrow> text_node list \<Rightarrow> event list \<times> exn option"
where
  "compose env cat q q_raw retrieved_nodes =
     (let context_text = context_text_of retrieved_nodes
      in if strip context_text = []
         then ([EditMessage NOT_FOUND_MSG], None)
         else
           (let source_note = ''(Sumber: '' @ collect_sources (map NodeWithScore retrieved_nodes) 5 @ '')'';
                mode_note = ''[Mode: '' @ (if \<not> truthy cat then ''Semua'' else the cat) @ '']'';
                prompt = prompt_of context_text q
            in case acomplete env prompt of
                 Inl e \<Rightarrow> ([Complete prompt], Some e)
               | Inr resp \<Rightarrow>
                   (let answer = strip (if truthy (resp_text resp) then the (resp_text resp)
                                        else resp_str resp)
                    in ([Complete prompt,
                         EditMessage (answer_msg answer source_note mode_note),
                         ReplyMarkup ''Nilai jawaban ini (1=buruk, 5=bagus):'' (keyboard_fb q_raw),
                         ReplyMarkup ''Apakah masih ingin bertanya?'' keyboard_next],
                        None))))"

text \<open>Lines 170--243: the not-indexed guard, then retrieval, reranking and the answer.\<close>

definition route :: "env \<Rightarrow> string option \<Rightarrow> string \<Rightarrow> string \<Rightarrow> event list \<times> exn option" where
  "route env cat q q_raw =
     (if truthy cat \<and> the cat \<notin> set (map fst (retrievers env))
      then ([EditMessage (not_indexed_msg (the cat))], None)
      else
        (case retrieval env cat q of
           (evs, Inl e) \<Rightarrow> (evs, Some e)
         | (evs, Inr retrieved_nodes) \<Rightarrow>
             (case rerank env retrieved_nodes q of
                (evs', nodes') \<Rightarrow>
                  (case compose env cat q q_raw nodes' of
                     (evs'', r) \<Rightarrow> (evs @ evs' @ evs'', r)))))"

text \<open>The \<open>except Exception\<close> of the handler: the error text replaces the placeholder.\<close>

fun guarded :: "event list \<times> exn option \<Rightarrow> event list" where
  "guarded (evs, None) = evs"
| "guarded (evs, Some e) = evs @ [EditMessage (error_msg e)]"

definition handle_message :: "env \<Rightarrow> session \<Rightarrow> string option \<Rightarrow> event list" where
  "handle_message env sess message_text =
     (let q_raw = (case message_text of None \<Rightarrow> [] | Some t \<Rightarrow> t)
      in ReplyText LOADING_MSG #
         guarded
           (case detect_category_and_query (Some q_raw) of
              Inl e \<Rightarrow> ([], Some e)
            | Inr (cat_from_prefix, q) \<Rightarrow>
                (let cat = (case cat_from_prefix of Some c \<Rightarrow> Some c | None \<Rightarrow> selected_cat sess)
                 in route env cat q q_raw)))"


section \<open>main.py: the callback handlers\<close>

definition category_keyboard :: keyboard where
  "category_keyboard =
     [[(''Character'', ''CAT|character''), (''Factions'', ''CAT|factions'')],
      [(''Items'', ''CAT|items''), (''Maps'', ''CAT|maps'')],
      [(''NPC'', ''CAT|npc''), (''Timeline'', ''CAT|timeline'')],
      [([CHR 0xF0, CHR 0x9F, CHR 0x94, CHR 0x8E] @ '' Semua Kategori'', ''CAT|all'')]]"

text \<open>
  \<open>q.data.split("|", n)\<close>: the payload of a callback query is optional, and \<open>None\<close> has
  no \<open>split\<close>.
\<close>

definition data_split :: "string option \<Rightarrow> nat \<Rightarrow> exn + string list" where
  "data_split data n =
     (case data of
        None \<Rightarrow>
          Inl (AttributeError ([CHR 0x27] @ ''NoneType' object has no attribute 'split'' @ [CHR 0x27]))
      | Some d \<Rightarrow> Inr (split_max CHR ''|'' n d))"

definition callback_not_indexed_msg :: "string \<Rightarrow> string" where
  "callback_not_indexed_msg cat =
     ''Kategori '' @ [CHR 0x27] @ cat @ [CHR 0x27]
     @ '' belum ter-index. Jalankan build_index.py untuk folder itu dulu.''"

definition UNKNOWN_CATEGORY_MSG :: string where
  "UNKNOWN_CATEGORY_MSG = ''Pilihan tidak dikenal. /start lagi ya.''"

definition pick_category_callback :: "env \<Rightarrow> session \<Rightarrow> string option \<Rightarrow> session \<times> event list" where
  "pick_category_callback env sess data =
     (case (case data_split data 1 of Inl e \<Rightarrow> Inl e | Inr parts \<Rightarrow> unpack2 parts) of
        Inl e \<Rightarrow> (sess, [Answer, EditMessage UNKNOWN_CATEGORY_MSG])
      | Inr (u, cat) \<Rightarrow>
          if cat = ''all''
          then (sess\<lparr>selected_cat := None\<rparr>,
                [Answer, EditMessage (''Mode: '' @ [CHR 0xF0, CHR 0x9F, CHR 0x94, CHR 0x8E]
                   @ '' semua kategori.'' @ NL @ ''Tulis pertanyaanmu:'')])
          else if cat \<notin> set (map fst (retrievers env))
          then (sess, [Answer, EditMessage (callback_not_indexed_msg cat)])
          else (sess\<lparr>selected_cat := Some cat\<rparr>,
                [Answer, EditMessage (''Mode: '' @ [CHR 0xF0, CHR 0x9F, CHR 0x97, CHR 0x82] @ '' ''
                   @ capitalize cat @ NL @ ''Silakan ketik pertanyaanmu''
                   @ [CHR 0xE2, CHR 0x80, CHR 0xA6])]))"

definition tips :: string where
  "tips =
     ''Terima kasih sudah menggunakan bot ini '' @ [CHR 0xF0, CHR 0x9F, CHR 0x91, CHR 0x8B] @ NL @ NL
     @ ''Saran berikutnya:'' @ NL
     @ [CHR 0xE2, CHR 0x80, CHR 0xA2] @ '' Ketik /start untuk ganti kategori dan tanya lagi'' @ NL
     @ [CHR 0xE2, CHR 0x80, CHR 0xA2] @ '' Ketik /reset kalau mau hapus pilihan kategori yang aktif'' @ NL
     @ [CHR 0xE2, CHR 0x80, CHR 0xA2]
     @ '' Pastikan data kamu up-to-date lalu rebuild index (jalankan build_index.py) kalau ada perubahan''"

definition UNKNOWN_CHOICE_MSG :: string where
  "UNKNOWN_CHOICE_MSG = ''Pilihan tidak dikenal.''"

definition next_step_callback :: "session \<Rightarrow> string option \<Rightarrow> session \<times> event list" where
  "next_step_callback sess data =
     (case (case data_split data 1 of Inl e \<Rightarrow> Inl e | Inr parts \<Rightarrow> unpack2 parts) of
        Inl e \<Rightarrow> (sess, [Answer, EditMessage UNKNOWN_CHOICE_MSG])
      | Inr (u, action) \<Rightarrow>
          if action = ''again''
          then (sess, [Answer, EditMarkup ''Pilih kategori baru:'' category_keyboard])
          else (sess, [Answer, EditMessage tips]))"

text \<open>
  The feedback log is the content of \<open>feedback_log.csv\<close>; \<open>open(..., "a")\<close> creates a
  missing file empty and writes at the end, so that \<open>f.tell()\<close> is the size of the file.
  How the \<open>csv\<close> module renders one record (quoting, line terminator) is its own
  business: \<open>fmt\<close>. \<open>now\<close> is what \<open>datetime.now().isoformat()\<close> returns.
\<close>

datatype cell = IntCell int | StrCell string

record user =
  user_id :: int
  username :: "string option"

definition FIELDNAMES :: "cell list" where
  "FIELDNAMES =
     [StrCell ''user_id'', StrCell ''username'', StrCell ''score'', StrCell ''question'',
      StrCell ''timestamp'']"

definition feedback_row :: "user \<Rightarrow> string \<Rightarrow> string \<Rightarrow> string \<Rightarrow> cell list" where
  "feedback_row u score question now =
     [IntCell (user_id u),
      StrCell (if truthy (username u) then the (username u) else []),
      StrCell score, StrCell question, StrCell now]"

definition INVALID_FEEDBACK_MSG :: string where
  "INVALID_FEEDBACK_MSG =
     [CHR 0xE2, CHR 0x9A, CHR 0xA0, CHR 0xEF, CHR 0xB8, CHR 0x8F] @ '' Format feedback tidak valid.''"

definition feedback_thanks_msg :: "string \<Rightarrow> string" where
  "feedback_thanks_msg score =
     [CHR 0xE2, CHR 0x9C, CHR 0x85] @ '' Terima kasih! Feedback '' @ score @ ''/5 terekam.''"

definition feedback_callback ::
  "(cell list \<Rightarrow> string) \<Rightarrow> string \<Rightarrow> user \<Rightarrow> session \<Rightarrow> string \<Rightarrow> string option
     \<Rightarrow> session \<times> string \<times> event list"
where
  "feedback_callback fmt now u sess log data =
     (case (case data_split data 2 of Inl e \<Rightarrow> Inl e | Inr parts \<Rightarrow> unpack3 parts) of
        Inl e \<Rightarrow> (sess, log, [Answer, EditMessage INVALID_FEEDBACK_MSG])
      | Inr (u0, score, question) \<Rightarrow>
          (let row = feedback_row u score question now;
               log' = log @ (if length log = 0 then fmt FIELDNAMES else []) @ fmt row
           in (sess, log', [Answer, EditMessage (feedback_thanks_msg score)])))"

text \<open>The commands \<open>/start\<close> and \<open>/reset\<close> clear the selection.\<close>

definition start_cmd :: "session \<Rightarrow> session \<times> event list" where
  "start_cmd sess =
     (sess\<lparr>selected_cat := None\<rparr>,
      [ReplyMarkup ''Pilih kategori yang ingin kamu tanyakan:'' category_keyboard])"

definition reset_cmd :: "session \<Rightarrow> session \<times> event list" where
  "reset_cmd sess =
     (sess\<lparr>selected_cat := None\<rparr>,
      [ReplyText ''Kategori direset. Ketik /start untuk pilih lagi.''])"


section \<open>main.py: a session over time\<close>

text \<open>
  A user's session starts with an empty \<open>user_data\<close>, and only the handlers touch it
  (\<open>handle_message\<close> reads it and changes nothing). A run is the list of the handler
  calls made for the user, in order; the feedback log goes with it. The retrievers are
  loaded once, before the first call.
\<close>

datatype invocation =
    StartCmd
  | ResetCmd
  | PickCategory "string option"
  | NextStep "string option"
  | Feedback "string option" user string
  | Question "string option"

fun invoke ::
  "(cell list \<Rightarrow> string) \<Rightarrow> env \<Rightarrow> session \<times> string \<Rightarrow> invocation \<Rightarrow> session \<times> string"
where
  "invoke fmt env (sess, log) StartCmd = (fst (start_cmd sess), log)"
| "invoke fmt env (sess, log) ResetCmd = (fst (reset_cmd sess), log)"
| "invoke fmt env (sess, log) (PickCategory data) =
     (fst (pick_category_callback env sess data), log)"
| "invoke fmt env (sess, log) (NextStep data) = (fst (next_step_callback sess data), log)"
| "invoke fmt env (sess, log) (Feedback data u now) =
     (case feedback_callback fmt now u sess log data of (sess', log', evs) \<Rightarrow> (sess', log'))"
| "invoke fmt env (sess, log) (Question message_text) = (sess, log)"

definition after_run ::
  "(cell list \<Rightarrow> string) \<Rightarrow> env \<Rightarrow> string \<Rightarrow> invocation list \<Rightarrow> session \<times> string"
where
  "after_run fmt env log0 calls = foldl (invoke fmt env) (\<lparr>selected_cat = None\<rparr>, log0) calls"


section \<open>build_index.py\<close>

text \<open>
  The file system, as far as the builder sees it: the entries of each directory, by name
  and kind (none for a path that is no directory), and the persisted index directories,
  by path. Reading
  the documents (line 43) and splitting, embedding and indexing them (lines 47--48) are
  external steps that may raise; removing and persisting a directory are taken to
  succeed.
\<close>

datatype entry_kind = RegularFile | Directory

record 'ix filesys =
  listing :: "string \<Rightarrow> (string \<times> entry_kind) list"
  persisted :: "string \<rightharpoonup> 'ix"

record ('doc, 'ix) builder =
  load_data :: "string list \<Rightarrow> exn + 'doc"
  make_index :: "'doc \<Rightarrow> exn + 'ix"


definition endswith :: "string \<Rightarrow> string \<Rightarrow> bool" where
  "endswith s suffix = (length suffix \<le> length s \<and> drop (length s - length suffix) s = suffix)"










section \<open>Notions used to state the properties\<close>

text \<open>
  The file names that the chunks of a list carry, in order (a chunk carries the first
  non-empty one of its \<open>file_name\<close>, \<open>filename\<close> and \<open>id\<close> entries), and a list
  reduced to the first occurrence of each of its elements.
\<close>

definition named_files :: "item list \<Rightarrow> string list" where
  "named_files nodes = map (\<lambda>n. the (fname_of n)) (filter (\<lambda>n. truthy (fname_of n)) nodes)"

fun first_seen_from :: "'a list \<Rightarrow> 'a list \<Rightarrow> 'a list" where
  "first_seen_from seen [] = []"
| "first_seen_from seen (x # xs) =
     (if x \<in> set seen then first_seen_from seen xs else x # first_seen_from (seen @ [x]) xs)"

definition first_seen :: "'a list \<Rightarrow> 'a list" where
  "first_seen xs = first_seen_from [] xs"

text \<open>
  A callback payload is malformed for a handler that splits it at most \<open>n\<close> times when
  there is no payload or it holds fewer than \<open>n\<close> separators.
\<close>

definition malformed :: "nat \<Rightarrow> string option \<Rightarrow> bool" where
  "malformed n data = (case data of None \<Rightarrow> True | Some d \<Rightarrow> count_list d CHR ''|'' < n)"

text \<open>
  The markdown files of a directory: its regular files whose name ends in \<open>.md\<close>.
\<close>

definition markdown_files :: "'ix filesys \<Rightarrow> string \<Rightarrow> string list" where
  "markdown_files fs d =
     map fst (filter (\<lambda>(n, k). k = RegularFile \<and> endswith n ''.md'') (listing fs d))"


section \<open>A small environment for the examples\<close>

text \<open>
  One indexed category, no reranker and a model that answers \<open>ok\<close>; variants of it
  whose retriever returns nothing, one blank chunk or two blank chunks, and one whose
  reranker raises, and one with two indexed categories; chunk lists for the source note;
  a user; a file system with one category that has markdown files and one that has none,
  and one whose only entry is a directory named like a markdown file, with a reader that
  refuses it.
\<close>

definition demo_node :: text_node where
  "demo_node = \<lparr>node_text = ''Peta Utara'', metadata = [''file_name'' \<mapsto> ''maps.md'']\<rparr>"

definition demo_env :: env where
  "demo_env =
     \<lparr>retrievers = [(''maps'', \<lambda>q. Inr [demo_node])],
      reranker = None,
      acomplete = (\<lambda>p. Inr \<lparr>resp_text = Some ''ok'', resp_str = ''ok''\<rparr>)\<rparr>"

definition demo_session :: session where
  "demo_session = \<lparr>selected_cat = None\<rparr>"

definition demo_chunks :: "item list" where
  "demo_chunks =
     [NodeWithScore \<lparr>node_text = ''one'', metadata = [''file_name'' \<mapsto> ''a.md'']\<rparr>,
      NodeWithScore \<lparr>node_text = ''two'', metadata = [''filename'' \<mapsto> ''b.md'']\<rparr>,
      NoNodeAttr,
      NodeWithScore \<lparr>node_text = ''three'', metadata = [''file_name'' \<mapsto> ''a.md'']\<rparr>]"

definition demo_unnamed :: "item list" where
  "demo_unnamed =
     [NodeWithScore \<lparr>node_text = ''one'', metadata = [''file_name'' \<mapsto> []]\<rparr>, NoNodeAttr]"

definition blank_chunks :: "text_node list" where
  "blank_chunks =
     [\<lparr>node_text = [], metadata = Map.empty\<rparr>, \<lparr>node_text = '' '', metadata = Map.empty\<rparr>]"

definition blank_env :: env where
  "blank_env =
     \<lparr>retrievers = [(''maps'', \<lambda>q. Inr blank_chunks)],
      reranker = None,
      acomplete = (\<lambda>p. Inr \<lparr>resp_text = Some ''ok'', resp_str = ''ok''\<rparr>)\<rparr>"

definition failing_rerank_env :: env where
  "failing_rerank_env = demo_env\<lparr>reranker := Some (\<lambda>ns q. Inl (Raised ''model not loaded''))\<rparr>"

definition none_env :: env where
  "none_env = demo_env\<lparr>retrievers := [(''maps'', \<lambda>q. Inr [])]\<rparr>"

definition one_blank_env :: env where
  "one_blank_env =
     demo_env\<lparr>retrievers := [(''maps'', \<lambda>q. Inr [\<lparr>node_text = '' '', metadata = Map.empty\<rparr>])]\<rparr>"

definition demo_user :: user where
  "demo_user = \<lparr>user_id = 7, username = Some ''ana''\<rparr>"



definition npc_node :: text_node where
  "npc_node = \<lparr>node_text = ''Penjaga'', metadata = [''file_name'' \<mapsto> ''npc.md'']\<rparr>"

definition two_env :: env where
  "two_env =
     demo_env\<lparr>retrievers := [(''maps'', \<lambda>q. Inr [demo_node]), (''npc'', \<lambda>q. Inr [npc_node])]\<rparr>"

definition npc_session :: session where
  "npc_session = \<lparr>selected_cat = Some ''npc''\<rparr>"

definition dir_fs :: "nat filesys" where
  "dir_fs =
     \<lparr>listing = (\<lambda>d. if d = ''data/maps'' then [(''bad.md'', Directory)] else []),
      persisted = [''storage/maps'' \<mapsto> 2]\<rparr>"

definition dir_reader :: "(nat, nat) builder" where
  "dir_reader =
     \<lparr>load_data = (\<lambda>files. if ''data/maps/bad.md'' \<in> set files
                          then Inl (Raised ''File data/maps/bad.md does not exist.'')
                          else Inr (length files)),
      make_index = (\<lambda>docs. Inr (docs + 10))\<rparr>"


section \<open>Facts about strings and prefix detection\<close>


lemma not_isspace_colon: "\<not> isspace CHR '':''"
  by (simp add: isspace_def)

lemma isspace_lower_char: "isspace (lower_char c) = isspace c"
  unfolding isspace_def lower_char_def Let_def by auto

lemma lstrip_append_nonspace: "\<not> isspace c \<Longrightarrow> lstrip (a @ c # q) = lstrip a @ c # q"
  by (simp add: lstrip_def dropWhile_append3)

lemma rstrip_append_nonspace: "\<not> isspace c \<Longrightarrow> rstrip (a @ c # q) = a @ c # rstrip q"
  by (simp add: rstrip_def dropWhile_append3)

lemma lstrip_idem: "lstrip (lstrip s) = lstrip s"
  by (simp add: lstrip_def)

lemma rstrip_idem: "rstrip (rstrip s) = rstrip s"
  by (simp add: rstrip_def)

lemma lstrip_all_space: "\<forall>c\<in>set s. isspace c \<Longrightarrow> lstrip s = []"
  by (simp add: lstrip_def)

lemma rstrip_all_space: "\<forall>c\<in>set s. isspace c \<Longrightarrow> rstrip s = []"
  by (simp add: rstrip_def)

lemma strip_commute: "rstrip (lstrip s) = lstrip (rstrip s)"
proof (cases "\<forall>c\<in>set s. isspace c")
  case True
  then have l: "lstrip s = []" and r: "rstrip s = []"
    by (simp_all add: lstrip_all_space rstrip_all_space)
  have nil: "lstrip [] = []" "rstrip [] = []"
    by (simp_all add: lstrip_def rstrip_def)
  show ?thesis by (simp only: l r nil)
next
  case False
  then have "\<exists>x\<in>set s. \<not> isspace x" by blast
  then obtain ys x zs where s: "s = ys @ x # zs" and x: "\<not> isspace x"
    and zs: "\<forall>z\<in>set zs. \<not> \<not> isspace z"
    using split_list_last_prop [of s "\<lambda>c. \<not> isspace c"] by blast
  from zs have z0: "rstrip zs = []" by (simp add: rstrip_all_space)
  have "rstrip (lstrip s) = lstrip ys @ [x]"
    using x z0 by (simp add: s lstrip_append_nonspace rstrip_append_nonspace)
  moreover have "lstrip (rstrip s) = lstrip ys @ [x]"
    using x z0 by (simp add: s lstrip_append_nonspace rstrip_append_nonspace)
  ultimately show ?thesis by simp
qed

lemma strip_lstrip: "strip (lstrip s) = strip s"
  by (simp add: strip_def lstrip_idem)

lemma strip_rstrip: "strip (rstrip s) = strip s"
  by (simp add: strip_def strip_commute [symmetric] rstrip_idem)

lemma strip_idem: "strip (strip s) = strip s"
  by (simp add: strip_def strip_rstrip [unfolded strip_def] lstrip_idem)

lemma lower_lstrip: "lstrip (lower s) = lower (lstrip s)"
  by (simp add: lstrip_def lower_def dropWhile_map comp_def isspace_lower_char)

lemma lower_rstrip: "rstrip (lower s) = lower (rstrip s)"
  by (simp add: rstrip_def lower_def dropWhile_map comp_def isspace_lower_char rev_map)

lemma lower_strip: "strip (lower s) = lower (strip s)"
  by (simp add: strip_def lower_lstrip lower_rstrip)

lemma strip_around_colon:
  "strip (a @ CHR '':'' # q) = lstrip a @ CHR '':'' # rstrip q"
  by (simp add: strip_def lstrip_append_nonspace rstrip_append_nonspace not_isspace_colon)

lemma in_set_dropWhile_iff: "\<not> P x \<Longrightarrow> x \<in> set (dropWhile P xs) \<longleftrightarrow> x \<in> set xs"
  by (induction xs) auto

lemma colon_in_strip: "CHR '':'' \<in> set (strip t) \<longleftrightarrow> CHR '':'' \<in> set t"
  by (simp add: strip_def lstrip_def rstrip_def in_set_dropWhile_iff not_isspace_colon)

lemma split_max_once:
  "c \<in> set s \<Longrightarrow> split_max c 1 s = [takeWhile (\<lambda>x. x \<noteq> c) s, tl (dropWhile (\<lambda>x. x \<noteq> c) s)]"
  unfolding One_nat_def by simp


lemma find_alias_Some: "find_alias p tbl = Some cat \<Longrightarrow> \<exists>keys. (cat, keys) \<in> set tbl \<and> p \<in> set keys"
  by (induction tbl) (auto split: if_splits)




lemma takeWhile_until: "c \<notin> set a \<Longrightarrow> takeWhile (\<lambda>x. x \<noteq> c) (a @ c # q) = a"
  by (induction a) auto

lemma dropWhile_until: "c \<notin> set a \<Longrightarrow> dropWhile (\<lambda>x. x \<noteq> c) (a @ c # q) = c # q"
  by (induction a) auto

lemma colon_notin_lstrip: "CHR '':'' \<notin> set a \<Longrightarrow> CHR '':'' \<notin> set (lstrip a)"
  by (auto simp: lstrip_def dest: set_dropWhileD)

lemma detect_split:
  assumes "CHR '':'' \<notin> set a"
  shows "detect_category_and_query (Some (a @ CHR '':'' # q)) =
           (case find_alias (lower (strip a)) ALIASES of
              Some cat \<Rightarrow> Inr (Some cat, strip q)
            | None \<Rightarrow> Inr (None, strip (a @ CHR '':'' # q)))"
proof -
  let ?raw = "strip (a @ CHR '':'' # q)"
  have raw: "?raw = lstrip a @ CHR '':'' # rstrip q" by (rule strip_around_colon)
  have la: "CHR '':'' \<notin> set (lstrip a)" using assms by (rule colon_notin_lstrip)
  have mem: "CHR '':'' \<in> set ?raw" by (simp add: raw)
  have "split_max CHR '':'' 1 ?raw = [lstrip a, rstrip q]"
    by (simp add: split_max_once [OF mem]) (simp add: raw takeWhile_until [OF la] dropWhile_until [OF la])
  then have sp: "split_max CHR '':'' (Suc 0) ?raw = [lstrip a, rstrip q]"
    by (simp only: One_nat_def)
  have p: "strip (lower (lstrip a)) = lower (strip a)"
    by (simp add: lower_strip strip_lstrip)
  show ?thesis
    unfolding detect_category_and_query_def Let_def
    by (simp add: mem sp p strip_rstrip del: split_max.simps split: option.splits)
qed

lemma detect_no_colon:
  "CHR '':'' \<notin> set t \<Longrightarrow> detect_category_and_query (Some t) = Inr (None, strip t)"
  by (simp add: detect_category_and_query_def colon_in_strip)








lemma detect_total: "\<exists>r. detect_category_and_query text = Inr r"
proof -
  let ?t = "case text of None \<Rightarrow> [] | Some t \<Rightarrow> t"
  have same: "detect_category_and_query text = detect_category_and_query (Some ?t)"
    by (simp add: detect_category_and_query_def split: option.splits)
  show ?thesis
  proof (cases "CHR '':'' \<in> set ?t")
    case False
    then show ?thesis by (simp add: same detect_no_colon)
  next
    case True
    then obtain a q where t: "?t = a @ CHR '':'' # q" and a: "CHR '':'' \<notin> set a"
      by (auto dest: split_list_first)
    show ?thesis using detect_split [OF a, of q] by (simp add: same t split: option.splits)
  qed
qed


section \<open>Facts about the question handler\<close>

lemma handle_message_unfold:
  "detect_category_and_query (Some t) = Inr (c, q) \<Longrightarrow>
   handle_message env sess (Some t) =
     ReplyText LOADING_MSG #
       guarded (route env (case c of Some x \<Rightarrow> Some x | None \<Rightarrow> selected_cat sess) q t)"
  by (simp add: handle_message_def)








lemma demo_strip_plain: "strip ''where is X'' = ''where is X''"
  by code_simp




section \<open>Facts about the source note\<close>

lemma set_first_seen_from: "set (first_seen_from seen xs) = set xs - set seen"
  by (induction xs arbitrary: seen) auto

lemma distinct_first_seen_from: "distinct (first_seen_from seen xs)"
  by (induction xs arbitrary: seen) (auto simp: set_first_seen_from)

lemma distinct_first_seen: "distinct (first_seen xs)"
  by (simp add: first_seen_def distinct_first_seen_from)

lemma set_first_seen: "set (first_seen xs) = set xs"
  by (simp add: first_seen_def set_first_seen_from)

lemma length_first_seen: "length (first_seen xs) = card (set xs)"
  using distinct_card [OF distinct_first_seen, of xs] by (simp add: set_first_seen)

lemma collect_files_spec:
  "length files < max_files \<Longrightarrow>
   collect_files nodes max_files files =
     take max_files (files @ first_seen_from files (named_files nodes))"
proof (induction nodes arbitrary: files)
  case Nil
  then show ?case by (simp add: named_files_def)
next
  case (Cons n ns)
  show ?case
  proof (cases "truthy (fname_of n) \<and> the (fname_of n) \<notin> set files")
    case True
    let ?f = "the (fname_of n)"
    have nf: "named_files (n # ns) = ?f # named_files ns"
      using True by (simp add: named_files_def)
    show ?thesis
    proof (cases "max_files \<le> length (files @ [?f])")
      case True
      with Cons.prems have m: "max_files = Suc (length files)" by simp
      from \<open>truthy (fname_of n) \<and> ?f \<notin> set files\<close> show ?thesis
        by (simp add: nf Let_def m)
    next
      case False
      then have "length (files @ [?f]) < max_files" by simp
      from Cons.IH [OF this] \<open>truthy (fname_of n) \<and> ?f \<notin> set files\<close> False show ?thesis
        by (simp add: nf Let_def)
    qed
  next
    case False
    have "first_seen_from files (named_files (n # ns)) = first_seen_from files (named_files ns)"
      using False by (auto simp: named_files_def)
    with False Cons.prems Cons.IH [OF Cons.prems] show ?thesis
      by (auto simp: Let_def)
  qed
qed

lemma collect_files_first_seen:
  "0 < max_files \<Longrightarrow> collect_files nodes max_files [] = take max_files (first_seen (named_files nodes))"
  by (simp add: collect_files_spec first_seen_def)

lemma truthy_fname_of:
  "truthy (fname_of n) \<longleftrightarrow>
     truthy (item_metadata n ''file_name'') \<or> truthy (item_metadata n ''filename'')
     \<or> truthy (item_metadata n ''id'')"
  by (simp add: fname_of_def py_or_def Let_def)

lemma truthy_the_nonempty: "truthy v \<Longrightarrow> the v \<noteq> []"
  by (cases v) (simp_all add: truthy_def)

lemma collect_files_nonempty_names:
  "[] \<notin> set files \<Longrightarrow> [] \<notin> set (collect_files nodes max_files files)"
proof (induction nodes arbitrary: files)
  case Nil
  then show ?case by simp
next
  case (Cons n ns)
  let ?files' = "if truthy (fname_of n) \<and> the (fname_of n) \<notin> set files
                 then files @ [the (fname_of n)] else files"
  have "[] \<notin> set ?files'"
    using Cons.prems truthy_the_nonempty [of "fname_of n"] by auto
  then have "[] \<notin> set (collect_files ns max_files ?files')" by (rule Cons.IH)
  with \<open>[] \<notin> set ?files'\<close> show ?case
    by (simp add: Let_def del: set_append)
qed

lemma join_nonempty: "xs \<noteq> [] \<Longrightarrow> [] \<notin> set xs \<Longrightarrow> join sep xs \<noteq> []"
  by (induction sep xs rule: join.induct) auto

lemma collect_files_unnamed:
  "\<forall>n\<in>set nodes. \<not> truthy (fname_of n) \<Longrightarrow> collect_files nodes max_files files = files"
  by (induction nodes arbitrary: files) (auto simp: Let_def)

lemma demo_chunks_first_seen: "first_seen (named_files demo_chunks) = [''a.md'', ''b.md'']"
  by (simp add: demo_chunks_def named_files_def first_seen_def fname_of_def py_or_def truthy_def)

lemma demo_unnamed_meta:
  "\<forall>n\<in>set demo_unnamed. \<not> truthy (item_metadata n ''file_name'')
          \<and> \<not> truthy (item_metadata n ''filename'') \<and> \<not> truthy (item_metadata n ''id'')"
  by (simp add: demo_unnamed_def truthy_def)


section \<open>Facts about retrieval, reranking and the empty-context guard\<close>

lemma all_space_dropWhile: "(\<forall>c\<in>set (dropWhile P xs). P c) \<longleftrightarrow> (\<forall>c\<in>set xs. P c)"
proof
  assume a: "\<forall>c\<in>set (dropWhile P xs). P c"
  have "dropWhile P xs = []"
  proof (rule ccontr)
    assume n: "dropWhile P xs \<noteq> []"
    then have "\<not> P (hd (dropWhile P xs))" by (rule hd_dropWhile)
    moreover from n have "hd (dropWhile P xs) \<in> set (dropWhile P xs)" by simp
    ultimately show False using a by blast
  qed
  then show "\<forall>c\<in>set xs. P c" by simp
next
  assume "\<forall>c\<in>set xs. P c"
  then show "\<forall>c\<in>set (dropWhile P xs). P c" by (auto dest: set_dropWhileD)
qed

lemma strip_empty_iff: "strip s = [] \<longleftrightarrow> (\<forall>c\<in>set s. isspace c)"
proof -
  have "strip s = [] \<longleftrightarrow> (\<forall>c\<in>set (rev (dropWhile isspace s)). isspace c)"
    by (simp add: strip_def rstrip_def lstrip_def)
  also have "\<dots> \<longleftrightarrow> (\<forall>c\<in>set (dropWhile isspace s). isspace c)" by simp
  also have "\<dots> \<longleftrightarrow> (\<forall>c\<in>set s. isspace c)" by (rule all_space_dropWhile)
  finally show ?thesis .
qed

lemma dash_in_CONTEXT_SEP: "CHR ''-'' \<in> set CONTEXT_SEP"
  by (simp add: CONTEXT_SEP_def)

lemma not_isspace_dash: "\<not> isspace CHR ''-''"
  by (simp add: isspace_def)

lemma join_two_not_blank: "strip (join CONTEXT_SEP (x # y # ys)) \<noteq> []"
proof -
  have "CHR ''-'' \<in> set (join CONTEXT_SEP (x # y # ys))"
    using dash_in_CONTEXT_SEP by simp
  then show ?thesis using not_isspace_dash by (auto simp: strip_empty_iff)
qed

lemma context_blank_iff:
  "strip (context_text_of nodes) = [] \<longleftrightarrow>
     nodes = [] \<or> (\<exists>n. nodes = [n] \<and> strip (node_text n) = [])"
proof (cases nodes)
  case Nil
  then show ?thesis by (simp add: context_text_of_def strip_empty_iff)
next
  case (Cons n ns)
  show ?thesis
  proof (cases ns)
    case Nil
    with Cons show ?thesis by (simp add: context_text_of_def)
  next
    case (Cons m ms)
    have "take 12 (map node_text nodes) = node_text n # node_text m # take 10 (map node_text ms)"
      using \<open>nodes = n # ns\<close> Cons by (simp add: take_Cons')
    then have "strip (context_text_of nodes) \<noteq> []"
      by (simp only: context_text_of_def join_two_not_blank not_False_eq_True)
    then show ?thesis
      using \<open>nodes = n # ns\<close> Cons by simp
  qed
qed

lemma compose_blank:
  "strip (context_text_of nodes) = [] \<Longrightarrow>
   compose env cat q t nodes = ([EditMessage NOT_FOUND_MSG], None)"
  by (simp add: compose_def)

lemma route_not_rejected:
  assumes "\<not> (truthy cat \<and> the cat \<notin> set (map fst (retrievers env)))"
    and "retrieval env cat q = (evs, Inr retrieved)"
  shows "route env cat q t =
     (evs @ fst (rerank env retrieved q) @ fst (compose env cat q t (snd (rerank env retrieved q))),
      snd (compose env cat q t (snd (rerank env retrieved q))))"
  using assms unfolding route_def by (auto split: prod.splits)

lemma retrieve_all_events: "e \<in> set (fst (retrieve_all rs q)) \<Longrightarrow> \<exists>c. e = Retrieve c q"
  by (induction rs q arbitrary: e rule: retrieve_all.induct) (auto split: sum.splits prod.splits)

lemma retrieval_events: "e \<in> set (fst (retrieval env cat q)) \<Longrightarrow> \<exists>c. e = Retrieve c q"
  unfolding retrieval_def by (auto split: if_splits option.splits dest: retrieve_all_events)

lemma rerank_events: "set (fst (rerank env nodes q)) \<subseteq> {Rerank q}"
  unfolding rerank_def by (auto split: option.splits sum.splits)

lemma rerank_empty: "rerank env [] q = ([], [])"
  by (simp add: rerank_def split: option.splits)

lemma demo_detect_plain:
  "detect_category_and_query (Some ''where is X'') = Inr (None, ''where is X'')"
  using detect_no_colon [of "''where is X''"] by (simp add: demo_strip_plain)

lemma demo_strip_ok: "strip ''ok'' = ''ok''"
  by code_simp

lemma demo_strip_node: "strip ''Peta Utara'' = ''Peta Utara''"
  by code_simp

lemma demo_node_sources: "collect_sources [NodeWithScore demo_node] 5 = ''maps.md''"
  by (simp add: collect_sources_def demo_node_def fname_of_def py_or_def truthy_def)

lemma blank_chunks_sources: "collect_sources (map NodeWithScore blank_chunks) 5 = ''dataset''"
  by (simp add: collect_sources_def blank_chunks_def fname_of_def py_or_def truthy_def)

lemma blank_chunks_context: "context_text_of blank_chunks = CONTEXT_SEP @ '' ''"
  by (simp add: context_text_of_def blank_chunks_def)

lemma blank_chunks_context_not_blank: "strip (context_text_of blank_chunks) \<noteq> []"
  by (simp add: context_blank_iff blank_chunks_def)

lemma blank_chunks_compose:
  "compose blank_env None ''where is X'' ''where is X'' blank_chunks =
     ([Complete (prompt_of (CONTEXT_SEP @ '' '') ''where is X''),
       EditMessage (answer_msg ''ok'' ''(Sumber: dataset)'' ''[Mode: Semua]''),
       ReplyMarkup ''Nilai jawaban ini (1=buruk, 5=bagus):'' (keyboard_fb ''where is X''),
       ReplyMarkup ''Apakah masih ingin bertanya?'' keyboard_next], None)"
  using blank_chunks_context_not_blank
  by (simp add: compose_def blank_chunks_sources blank_chunks_context blank_env_def truthy_def
      demo_strip_ok)

lemma failing_rerank_compose:
  "compose failing_rerank_env None ''where is X'' ''where is X'' [demo_node] =
     ([Complete (prompt_of ''Peta Utara'' ''where is X''),
       EditMessage (answer_msg ''ok'' ''(Sumber: maps.md)'' ''[Mode: Semua]''),
       ReplyMarkup ''Nilai jawaban ini (1=buruk, 5=bagus):'' (keyboard_fb ''where is X''),
       ReplyMarkup ''Apakah masih ingin bertanya?'' keyboard_next], None)"
proof -
  have c: "context_text_of [demo_node] = ''Peta Utara''"
    by (simp add: context_text_of_def demo_node_def)
  show ?thesis
    by (simp add: compose_def c demo_strip_node demo_node_sources failing_rerank_env_def
        demo_env_def truthy_def demo_strip_ok)
qed


section \<open>Facts about the callback handlers\<close>

lemma count_list_after_first:
  "c \<in> set d \<Longrightarrow> count_list d c = Suc (count_list (tl (dropWhile (\<lambda>x. x \<noteq> c) d)) c)"
  by (induction d) auto

lemma count_list_zero_iff: "count_list d c = 0 \<longleftrightarrow> c \<notin> set d"
  by (induction d) auto

lemma split_max_length: "length (split_max c n d) = Suc (min n (count_list d c))"
proof (induction n arbitrary: d)
  case 0
  then show ?case by simp
next
  case (Suc n)
  show ?case
  proof (cases "c \<in> set d")
    case True
    then show ?thesis by (simp add: Suc.IH count_list_after_first [OF True])
  next
    case False
    then have "count_list d c = 0" by (simp add: count_list_zero_iff)
    with False show ?thesis by simp
  qed
qed

lemma unpack2_Inl_iff: "(\<exists>e. unpack2 xs = Inl e) \<longleftrightarrow> length xs \<noteq> 2"
  by (cases xs rule: unpack2.cases) auto

lemma unpack3_Inl_iff: "(\<exists>e. unpack3 xs = Inl e) \<longleftrightarrow> length xs \<noteq> 3"
  by (cases xs rule: unpack3.cases) auto

lemma malformed_split2:
  "malformed 1 data \<Longrightarrow>
   \<exists>e. (case data_split data 1 of Inl e \<Rightarrow> Inl e | Inr parts \<Rightarrow> unpack2 parts) = Inl e"
proof (cases data)
  case None
  then show ?thesis by (simp add: data_split_def)
next
  case (Some d)
  assume "malformed 1 data"
  with Some have "count_list d CHR ''|'' < 1" by (simp add: malformed_def)
  moreover have "length (split_max CHR ''|'' 1 d) = Suc (min 1 (count_list d CHR ''|''))"
    by (rule split_max_length)
  ultimately have "length (split_max CHR ''|'' 1 d) \<noteq> 2" by arith
  then have "\<exists>e. unpack2 (split_max CHR ''|'' 1 d) = Inl e"
    using unpack2_Inl_iff by blast
  with Some show ?thesis by (simp add: data_split_def del: split_max.simps)
qed

lemma malformed_split3:
  "malformed 2 data \<Longrightarrow>
   \<exists>e. (case data_split data 2 of Inl e \<Rightarrow> Inl e | Inr parts \<Rightarrow> unpack3 parts) = Inl e"
proof (cases data)
  case None
  then show ?thesis by (simp add: data_split_def)
next
  case (Some d)
  assume "malformed 2 data"
  with Some have "count_list d CHR ''|'' < 2" by (simp add: malformed_def)
  moreover have "length (split_max CHR ''|'' 2 d) = Suc (min 2 (count_list d CHR ''|''))"
    by (rule split_max_length)
  ultimately have "length (split_max CHR ''|'' 2 d) \<noteq> 3" by arith
  then have "\<exists>e. unpack3 (split_max CHR ''|'' 2 d) = Inl e"
    using unpack3_Inl_iff by blast
  with Some show ?thesis by (simp add: data_split_def del: split_max.simps)
qed

lemma split_max_two_parts:
  "c \<notin> set tag \<Longrightarrow> split_max c 1 (tag @ c # rest) = [tag, rest]"
  by (simp add: split_max_once takeWhile_until dropWhile_until)

lemma split_max_three_parts:
  assumes "c \<notin> set tag" and "c \<notin> set score"
  shows "split_max c 2 (tag @ c # score @ c # question) = [tag, score, question]"
proof -
  let ?s = "tag @ c # score @ c # question"
  have m: "c \<in> set ?s" by simp
  have "split_max c (Suc (Suc 0)) ?s =
      takeWhile (\<lambda>x. x \<noteq> c) ?s # split_max c (Suc 0) (tl (dropWhile (\<lambda>x. x \<noteq> c) ?s))"
    using m by (simp only: split_max.simps(2) if_True)
  then have "split_max c (Suc (Suc 0)) ?s = tag # split_max c (Suc 0) (score @ c # question)"
    by (simp only: takeWhile_until [OF assms(1)] dropWhile_until [OF assms(1)] list.sel)
  also have "split_max c (Suc 0) (score @ c # question) = [score, question]"
    using split_max_two_parts [OF assms(2), of question] by simp
  finally show ?thesis by (simp add: numeral_2_eq_2)
qed




section \<open>Facts about the index builder\<close>














section \<open>Category resolution\<close>






section \<open>Source note\<close>

text \<open>
  C6. For every list of retrieved chunks, the source note is the file names the chunks
  carry, reduced to the first occurrence of each and cut after five, joined by a comma and
  a space (or \<open>dataset\<close> when there is none): no name twice, in first-seen order, and
  as many names as there are distinct ones, up to five.
\<close>

theorem source_note_dedup:
  "collect_sources nodes 5 =
     (if take 5 (first_seen (named_files nodes)) = [] then ''dataset''
      else join '', '' (take 5 (first_seen (named_files nodes))))
   \<and> distinct (take 5 (first_seen (named_files nodes)))
   \<and> length (take 5 (first_seen (named_files nodes))) = min 5 (card (set (named_files nodes)))
   \<and> card (set (named_files nodes)) \<le> length nodes"
proof -
  have "card (set (named_files nodes)) \<le> length (named_files nodes)" by (rule card_length)
  also have "\<dots> \<le> length nodes" by (simp add: named_files_def)
  finally have c: "card (set (named_files nodes)) \<le> length nodes" .
  show ?thesis
    by (simp add: collect_sources_def collect_files_first_seen distinct_first_seen
        length_first_seen c min.commute)
qed

theorem source_note_dedup_witness:
  "collect_sources demo_chunks 5 = ''a.md, b.md''"
  using source_note_dedup [of demo_chunks] by (simp add: demo_chunks_first_seen)

text \<open>
  C10. \<open>collect_sources\<close> never returns the empty string, and when no chunk of the list
  has a non-empty \<open>file_name\<close>, \<open>filename\<close> or \<open>id\<close> entry (the empty list
  included) it returns \<open>dataset\<close>.
\<close>

theorem source_note_never_empty:
  "collect_sources nodes max_files \<noteq> []
   \<and> ((\<forall>n\<in>set nodes. \<not> truthy (item_metadata n ''file_name'')
          \<and> \<not> truthy (item_metadata n ''filename'') \<and> \<not> truthy (item_metadata n ''id''))
        \<longrightarrow> collect_sources nodes max_files = ''dataset'')"
proof (intro conjI impI)
  have "[] \<notin> set (collect_files nodes max_files [])"
    by (rule collect_files_nonempty_names) simp
  then show "collect_sources nodes max_files \<noteq> []"
    by (simp add: collect_sources_def Let_def join_nonempty)
next
  assume "\<forall>n\<in>set nodes. \<not> truthy (item_metadata n ''file_name'')
          \<and> \<not> truthy (item_metadata n ''filename'') \<and> \<not> truthy (item_metadata n ''id'')"
  then have "\<forall>n\<in>set nodes. \<not> truthy (fname_of n)" by (simp add: truthy_fname_of)
  then show "collect_sources nodes max_files = ''dataset''"
    by (simp add: collect_sources_def collect_files_unnamed)
qed

theorem source_note_never_empty_witness:
  "collect_sources demo_unnamed 5 = ''dataset'' \<and> collect_sources [] 5 = ''dataset''
   \<and> collect_sources demo_chunks 5 \<noteq> []"
proof -
  from source_note_never_empty [of demo_unnamed 5] demo_unnamed_meta
  have a: "collect_sources demo_unnamed 5 = ''dataset''" by blast
  from source_note_never_empty [of "[]" 5]
  have b: "collect_sources [] 5 = ''dataset''" by simp
  from source_note_never_empty [of demo_chunks 5]
  have c: "collect_sources demo_chunks 5 \<noteq> []" by blast
  from a b c show ?thesis by blast
qed


section \<open>Empty context and reranking\<close>

text \<open>
  C1, as stated, fails: two retrieved chunks whose texts are both blank are joined by the
  separator, whose dashes make the context block non-blank, so the model is called and
  its answer is sent.
\<close>

theorem blank_chunks_reach_the_model:
  "map (\<lambda>n. strip (node_text n)) blank_chunks = [[], []]
   \<and> handle_message blank_env demo_session (Some ''where is X'') =
      [ReplyText LOADING_MSG,
       Retrieve ''maps'' ''where is X'',
       Complete (prompt_of (CONTEXT_SEP @ '' '') ''where is X''),
       EditMessage (answer_msg ''ok'' ''(Sumber: dataset)'' ''[Mode: Semua]''),
       ReplyMarkup ''Nilai jawaban ini (1=buruk, 5=bagus):'' (keyboard_fb ''where is X''),
       ReplyMarkup ''Apakah masih ingin bertanya?'' keyboard_next]"
proof
  show "map (\<lambda>n. strip (node_text n)) blank_chunks = [[], []]"
    by (simp add: blank_chunks_def strip_empty_iff isspace_def)
  have r: "retrieval blank_env None ''where is X'' = ([Retrieve ''maps'' ''where is X''], Inr blank_chunks)"
    by (simp add: retrieval_def truthy_def blank_env_def)
  have k: "rerank blank_env blank_chunks ''where is X'' = ([], blank_chunks)"
    by (simp add: rerank_def blank_env_def)
  have n: "\<not> (truthy None \<and> the None \<notin> set (map fst (retrievers blank_env)))"
    by (simp add: truthy_def)
  have "route blank_env None ''where is X'' ''where is X'' =
      ([Retrieve ''maps'' ''where is X'',
        Complete (prompt_of (CONTEXT_SEP @ '' '') ''where is X''),
        EditMessage (answer_msg ''ok'' ''(Sumber: dataset)'' ''[Mode: Semua]''),
        ReplyMarkup ''Nilai jawaban ini (1=buruk, 5=bagus):'' (keyboard_fb ''where is X''),
        ReplyMarkup ''Apakah masih ingin bertanya?'' keyboard_next], None)"
    by (simp add: route_not_rejected [OF n r] k blank_chunks_compose)
  then show "handle_message blank_env demo_session (Some ''where is X'') =
      [ReplyText LOADING_MSG,
       Retrieve ''maps'' ''where is X'',
       Complete (prompt_of (CONTEXT_SEP @ '' '') ''where is X''),
       EditMessage (answer_msg ''ok'' ''(Sumber: dataset)'' ''[Mode: Semua]''),
       ReplyMarkup ''Nilai jawaban ini (1=buruk, 5=bagus):'' (keyboard_fb ''where is X''),
       ReplyMarkup ''Apakah masih ingin bertanya?'' keyboard_next]"
    using handle_message_unfold [OF demo_detect_plain, of blank_env demo_session]
    by (simp add: demo_session_def)
qed

text \<open>
  C1, amended. Whenever the handler reaches retrieval and retrieval returns, the chunks
  left after reranking make a blank context block (their first twelve texts joined by the
  separator) exactly when there is no chunk, or one chunk whose text is blank; zero
  retrieved chunks leave no chunk. With a blank context block the handler's calls are the
  placeholder, the retrievals, the reranking if any, and the fixed not-found text: no
  call to the model is made.
\<close>

theorem empty_context_guard:
  assumes "detect_category_and_query (Some t) = Inr (cfp, q)"
    and "cat = (case cfp of Some c \<Rightarrow> Some c | None \<Rightarrow> selected_cat sess)"
    and "\<not> (truthy cat \<and> the cat \<notin> set (map fst (retrievers env)))"
    and "retrieval env cat q = (evs, Inr retrieved)"
    and "rerank env retrieved q = (evs', nodes)"
  shows "(retrieved = [] \<longrightarrow> nodes = [])
     \<and> ((nodes = [] \<or> (\<exists>n. nodes = [n] \<and> strip (node_text n) = []))
          = (strip (context_text_of nodes) = []))
     \<and> (strip (context_text_of nodes) = [] \<longrightarrow>
          handle_message env sess (Some t) =
            ReplyText LOADING_MSG # evs @ evs' @ [EditMessage NOT_FOUND_MSG]
          \<and> (\<forall>p. Complete p \<notin> set (handle_message env sess (Some t))))"
proof (intro conjI impI)
  assume "retrieved = []"
  with assms(5) show "nodes = []" by (simp add: rerank_empty)
next
  show "(nodes = [] \<or> (\<exists>n. nodes = [n] \<and> strip (node_text n) = []))
          = (strip (context_text_of nodes) = [])"
    by (simp add: context_blank_iff)
next
  assume b: "strip (context_text_of nodes) = []"
  have rt: "route env cat q t = (evs @ evs' @ [EditMessage NOT_FOUND_MSG], None)"
    using route_not_rejected [OF assms(3,4), of t] assms(5) by (simp add: compose_blank [OF b])
  have "handle_message env sess (Some t) = ReplyText LOADING_MSG # guarded (route env cat q t)"
    using handle_message_unfold [OF assms(1), of env sess] by (simp add: assms(2))
  then show hm: "handle_message env sess (Some t) =
            ReplyText LOADING_MSG # evs @ evs' @ [EditMessage NOT_FOUND_MSG]"
    by (simp add: rt)
  have e1: "\<forall>e\<in>set evs. \<exists>c. e = Retrieve c q"
    using retrieval_events [of _ env cat q] assms(4) by simp
  have e2: "set evs' \<subseteq> {Rerank q}"
    using rerank_events [of env retrieved q] assms(5) by simp
  show "\<forall>p. Complete p \<notin> set (handle_message env sess (Some t))"
    using e1 e2 by (auto simp: hm)
qed

theorem empty_context_guard_witness:
  "handle_message none_env demo_session (Some ''where is X'') =
     [ReplyText LOADING_MSG, Retrieve ''maps'' ''where is X'', EditMessage NOT_FOUND_MSG]
   \<and> (\<forall>p. Complete p \<notin> set (handle_message none_env demo_session (Some ''where is X'')))
   \<and> handle_message one_blank_env demo_session (Some ''where is X'') =
     [ReplyText LOADING_MSG, Retrieve ''maps'' ''where is X'', EditMessage NOT_FOUND_MSG]"
proof -
  let ?b = "\<lparr>node_text = '' '', metadata = Map.empty\<rparr> :: text_node"
  have c: "None = (case None of Some c \<Rightarrow> Some c | None \<Rightarrow> selected_cat demo_session)"
    by (simp add: demo_session_def)
  have n: "\<not> (truthy None \<and> the None \<notin> set (map fst (retrievers none_env)))"
    by (simp add: truthy_def)
  have r: "retrieval none_env None ''where is X'' = ([Retrieve ''maps'' ''where is X''], Inr [])"
    by (simp add: retrieval_def truthy_def none_env_def demo_env_def)
  have k: "rerank none_env [] ''where is X'' = ([], [])"
    by (rule rerank_empty)
  have b: "strip (context_text_of []) = []"
    by (simp add: context_blank_iff)
  from empty_context_guard [OF demo_detect_plain c n r k] b
  have p1: "handle_message none_env demo_session (Some ''where is X'') =
     [ReplyText LOADING_MSG, Retrieve ''maps'' ''where is X'', EditMessage NOT_FOUND_MSG]
   \<and> (\<forall>p. Complete p \<notin> set (handle_message none_env demo_session (Some ''where is X'')))"
    by simp
  have n': "\<not> (truthy None \<and> the None \<notin> set (map fst (retrievers one_blank_env)))"
    by (simp add: truthy_def)
  have r': "retrieval one_blank_env None ''where is X'' = ([Retrieve ''maps'' ''where is X''], Inr [?b])"
    by (simp add: retrieval_def truthy_def one_blank_env_def demo_env_def)
  have k': "rerank one_blank_env [?b] ''where is X'' = ([], [?b])"
    by (simp add: rerank_def one_blank_env_def demo_env_def)
  have "strip (node_text ?b) = []"
    by (simp add: strip_empty_iff isspace_def)
  then have b': "strip (context_text_of [?b]) = []"
    using context_blank_iff [of "[?b]"] by blast
  from empty_context_guard [OF demo_detect_plain c n' r' k'] b'
  have p2: "handle_message one_blank_env demo_session (Some ''where is X'') =
     [ReplyText LOADING_MSG, Retrieve ''maps'' ''where is X'', EditMessage NOT_FOUND_MSG]"
    by simp
  from p1 p2 show ?thesis by blast
qed

text \<open>
  C4. Whenever the handler reaches retrieval and retrieval returns, and there is no
  reranker or the reranker raises on the retrieved chunks for the query, the chunks go on
  unchanged, in retrieval order: the answer is composed from them, the only call added is
  the reranker's own, and the only exception that can end the query is one of the
  composition (the model call).
\<close>

theorem rerank_failure_is_silent:
  assumes "detect_category_and_query (Some t) = Inr (cfp, q)"
    and "cat = (case cfp of Some c \<Rightarrow> Some c | None \<Rightarrow> selected_cat sess)"
    and "\<not> (truthy cat \<and> the cat \<notin> set (map fst (retrievers env)))"
    and "retrieval env cat q = (evs, Inr retrieved)"
    and "reranker env = None \<or> (\<exists>rr e. reranker env = Some rr \<and> rr retrieved q = Inl e)"
  shows "snd (rerank env retrieved q) = retrieved
     \<and> set (fst (rerank env retrieved q)) \<subseteq> {Rerank q}
     \<and> handle_message env sess (Some t) =
         ReplyText LOADING_MSG #
           guarded (evs @ fst (rerank env retrieved q) @ fst (compose env cat q t retrieved),
                    snd (compose env cat q t retrieved))"
proof (intro conjI)
  show s: "snd (rerank env retrieved q) = retrieved"
    using assms(5) by (auto simp: rerank_def)
  show "set (fst (rerank env retrieved q)) \<subseteq> {Rerank q}"
    by (rule rerank_events)
  have "handle_message env sess (Some t) = ReplyText LOADING_MSG # guarded (route env cat q t)"
    using handle_message_unfold [OF assms(1), of env sess] by (simp add: assms(2))
  then show "handle_message env sess (Some t) =
         ReplyText LOADING_MSG #
           guarded (evs @ fst (rerank env retrieved q) @ fst (compose env cat q t retrieved),
                    snd (compose env cat q t retrieved))"
    by (simp add: route_not_rejected [OF assms(3,4)] s)
qed

theorem rerank_failure_is_silent_witness:
  "handle_message failing_rerank_env demo_session (Some ''where is X'') =
     [ReplyText LOADING_MSG,
      Retrieve ''maps'' ''where is X'',
      Rerank ''where is X'',
      Complete (prompt_of ''Peta Utara'' ''where is X''),
      EditMessage (answer_msg ''ok'' ''(Sumber: maps.md)'' ''[Mode: Semua]''),
      ReplyMarkup ''Nilai jawaban ini (1=buruk, 5=bagus):'' (keyboard_fb ''where is X''),
      ReplyMarkup ''Apakah masih ingin bertanya?'' keyboard_next]"
proof -
  have c: "None = (case None of Some c \<Rightarrow> Some c | None \<Rightarrow> selected_cat demo_session)"
    by (simp add: demo_session_def)
  have n: "\<not> (truthy None \<and> the None \<notin> set (map fst (retrievers failing_rerank_env)))"
    by (simp add: truthy_def)
  have r: "retrieval failing_rerank_env None ''where is X'' =
      ([Retrieve ''maps'' ''where is X''], Inr [demo_node])"
    by (simp add: retrieval_def truthy_def failing_rerank_env_def demo_env_def)
  have f: "reranker failing_rerank_env = None
      \<or> (\<exists>rr e. reranker failing_rerank_env = Some rr \<and> rr [demo_node] ''where is X'' = Inl e)"
    by (simp add: failing_rerank_env_def)
  have k: "fst (rerank failing_rerank_env [demo_node] ''where is X'') = [Rerank ''where is X'']"
    by (simp add: rerank_def failing_rerank_env_def)
  from rerank_failure_is_silent [OF demo_detect_plain c n r f]
  show ?thesis
    by (simp add: k failing_rerank_compose)
qed


section \<open>Callback handlers\<close>

text \<open>
  C8. A callback without payload, or with too few separators for its handler (none for the
  category and next-step handlers, fewer than two for the feedback handler), gets the
  handler's validation text as its only reply; the session is returned as it was and the
  feedback log is returned as it was.
\<close>

theorem malformed_payload_rejected:
  "(malformed 1 data \<longrightarrow>
      pick_category_callback env sess data = (sess, [Answer, EditMessage UNKNOWN_CATEGORY_MSG])
      \<and> next_step_callback sess data = (sess, [Answer, EditMessage UNKNOWN_CHOICE_MSG]))
   \<and> (malformed 2 data \<longrightarrow>
      feedback_callback fmt now u sess log data = (sess, log, [Answer, EditMessage INVALID_FEEDBACK_MSG]))"
proof (intro conjI impI)
  assume m: "malformed 1 data"
  from malformed_split2 [OF m] obtain e where
    e: "(case data_split data 1 of Inl e \<Rightarrow> Inl e | Inr parts \<Rightarrow> unpack2 parts) = Inl e" by blast
  show "pick_category_callback env sess data = (sess, [Answer, EditMessage UNKNOWN_CATEGORY_MSG])"
    unfolding pick_category_callback_def by (simp only: e sum.case)
  show "next_step_callback sess data = (sess, [Answer, EditMessage UNKNOWN_CHOICE_MSG])"
    unfolding next_step_callback_def by (simp only: e sum.case)
next
  assume m: "malformed 2 data"
  from malformed_split3 [OF m] obtain e where
    e: "(case data_split data 2 of Inl e \<Rightarrow> Inl e | Inr parts \<Rightarrow> unpack3 parts) = Inl e" by blast
  show "feedback_callback fmt now u sess log data = (sess, log, [Answer, EditMessage INVALID_FEEDBACK_MSG])"
    unfolding feedback_callback_def by (simp only: e sum.case)
qed

theorem malformed_payload_rejected_witness:
  "pick_category_callback demo_env \<lparr>selected_cat = Some ''maps''\<rparr> (Some ''CAT'') =
     (\<lparr>selected_cat = Some ''maps''\<rparr>, [Answer, EditMessage UNKNOWN_CATEGORY_MSG])
   \<and> next_step_callback demo_session None = (demo_session, [Answer, EditMessage UNKNOWN_CHOICE_MSG])
   \<and> (\<forall>fmt. feedback_callback fmt ''2024-05-01T10:00:00'' demo_user demo_session ''old'' (Some ''fb|5'') =
        (demo_session, ''old'', [Answer, EditMessage INVALID_FEEDBACK_MSG]))"
proof -
  have a: "malformed 1 (Some ''CAT'')" by (simp add: malformed_def)
  have b: "malformed 1 None" by (simp add: malformed_def)
  have c: "malformed 2 (Some ''fb|5'')" by (simp add: malformed_def)
  from malformed_payload_rejected [of "Some ''CAT''" demo_env "\<lparr>selected_cat = Some ''maps''\<rparr>"] a
  have p1: "pick_category_callback demo_env \<lparr>selected_cat = Some ''maps''\<rparr> (Some ''CAT'') =
     (\<lparr>selected_cat = Some ''maps''\<rparr>, [Answer, EditMessage UNKNOWN_CATEGORY_MSG])" by blast
  from malformed_payload_rejected [of None demo_env demo_session] b
  have p2: "next_step_callback demo_session None = (demo_session, [Answer, EditMessage UNKNOWN_CHOICE_MSG])"
    by blast
  have p3: "feedback_callback fmt ''2024-05-01T10:00:00'' demo_user demo_session ''old'' (Some ''fb|5'') =
        (demo_session, ''old'', [Answer, EditMessage INVALID_FEEDBACK_MSG])" for fmt
    using malformed_payload_rejected [of "Some ''fb|5''" demo_env demo_session fmt
        "''2024-05-01T10:00:00''" demo_user "''old''"] c by blast
  from p1 p2 p3 show ?thesis by blast
qed



text \<open>
  C7. For a payload \<open>tag|score|question\<close> (no separator in the tag or the score; the
  question may hold any), the feedback handler leaves the log as it was and appends to it
  the header record when the log was empty, and then one record: the user id, the
  username (empty when the user has none), the score, the question and the timestamp
  that the clock call returned. The session is unchanged.
\<close>

theorem feedback_appends_one_row:
  assumes "CHR ''|'' \<notin> set tag" and "CHR ''|'' \<notin> set score"
  shows "feedback_callback fmt now u sess log (Some (tag @ ''|'' @ score @ ''|'' @ question)) =
     (sess,
      log @ (if log = [] then fmt FIELDNAMES else [])
          @ fmt [IntCell (user_id u),
                 StrCell (case username u of None \<Rightarrow> [] | Some name \<Rightarrow> name),
                 StrCell score, StrCell question, StrCell now],
      [Answer, EditMessage (feedback_thanks_msg score)])"
proof -
  have sp: "split_max CHR ''|'' 2 (tag @ ''|'' @ score @ ''|'' @ question) = [tag, score, question]"
    using split_max_three_parts [OF assms, of question] by simp
  have p: "(case data_split (Some (tag @ ''|'' @ score @ ''|'' @ question)) 2 of
              Inl e \<Rightarrow> Inl e | Inr parts \<Rightarrow> unpack3 parts) = Inr (tag, score, question)"
    by (simp only: data_split_def option.case sum.case sp unpack3.simps)
  have n: "(if truthy (username u) then the (username u) else []) =
      (case username u of None \<Rightarrow> [] | Some name \<Rightarrow> name)"
    by (simp add: truthy_def split: option.splits)
  show ?thesis
    unfolding feedback_callback_def
    by (simp only: p sum.case prod.case Let_def feedback_row_def n length_0_conv)
qed

theorem feedback_appends_one_row_witness:
  "(\<forall>fmt. feedback_callback fmt ''2024-05-01T10:00:00'' demo_user demo_session []
        (Some ''fb|4|who is the king'') =
      (demo_session,
       fmt FIELDNAMES
         @ fmt [IntCell 7, StrCell ''ana'', StrCell ''4'', StrCell ''who is the king'',
                StrCell ''2024-05-01T10:00:00''],
       [Answer, EditMessage (feedback_thanks_msg ''4'')]))
   \<and> (\<forall>fmt. feedback_callback fmt ''2024-05-01T10:00:00'' demo_user demo_session ''old''
        (Some ''fb|4|who is the king'') =
      (demo_session,
       ''old''
         @ fmt [IntCell 7, StrCell ''ana'', StrCell ''4'', StrCell ''who is the king'',
                StrCell ''2024-05-01T10:00:00''],
       [Answer, EditMessage (feedback_thanks_msg ''4'')]))"
proof -
  have a: "CHR ''|'' \<notin> set ''fb''" and b: "CHR ''|'' \<notin> set ''4''" by simp_all
  show ?thesis
    using feedback_appends_one_row [OF a b, of _ "''2024-05-01T10:00:00''" demo_user demo_session _
        "''who is the king''"]
    by (simp add: demo_user_def)
qed


section \<open>Index builder\<close>



end
